theory Spec2Isabelle
  imports Main
begin

section \<open>Data model\<close>

text \<open>
  Modelled from the spec: the declarations of \<^verbatim>\<open>../types\<close> (Task, SyncQueueItem,
  SyncResult, BatchSyncRequest, BatchSyncResponse) are not among the sources. The fields
  below are the ones the two services read and write, with the meaning sections 3 and 6
  of the specification give them.

  A JavaScript \<^verbatim>\<open>Date\<close> is its time value: \<open>Some ms\<close>, or \<open>None\<close> for an invalid
  date, whose \<^verbatim>\<open>getTime()\<close> is NaN. An optional field (\<^verbatim>\<open>undefined\<close> in
  JavaScript, NULL in a table) is \<open>None\<close>. The 0/1 columns \<^verbatim>\<open>completed\<close> and
  \<^verbatim>\<open>is_deleted\<close> are booleans, so the conversions \<^verbatim>\<open>!!row.completed\<close> and
  \<^verbatim>\<open>winner.completed ? 1 : 0\<close> are the identity, and one record type stands for a
  row of the \<^verbatim>\<open>tasks\<close> table and for the Task object built from it.
\<close>

type_synonym date = "int option"

datatype SyncStatus = Pending | Synced | Error

datatype Operation = Create | Update | Delete

datatype ItemStatus = Success | Conflict | ErrorStatus

record Task =
  id_task :: string
  title :: string
  description :: "string option"
  completed :: bool
  created_at_task :: date
  updated_at :: date
  is_deleted :: bool
  sync_status :: SyncStatus
  server_id :: "string option"
  last_synced_at :: "int option"

text \<open>
  A row of \<^verbatim>\<open>sync_queue\<close>. The payload \<^verbatim>\<open>data\<close> is kept as the stored text:
  every writer of the table stores \<^verbatim>\<open>JSON.stringify\<close> of an object, and the pass
  never looks inside it.
\<close>

record SyncQueueItem =
  id_item :: string
  task_id :: string
  operation :: Operation
  data :: string
  created_at :: int
  retry_count :: nat
  error_message :: "string option"

record ProcessedItem =
  client_id :: string
  server_id_p :: "string option"
  status :: ItemStatus
  resolved_data :: "Task option"
  error_p :: "string option"

record BatchSyncRequest =
  items :: "SyncQueueItem list"
  client_timestamp :: int

record BatchSyncResponse =
  processed_items :: "ProcessedItem list"

record SyncError =
  task_id_e :: string
  operation_e :: Operation
  error_e :: string
  timestamp_e :: int

record SyncResult =
  success :: bool
  synced_items :: nat
  failed_items :: nat
  errors_r :: "SyncError list"

text \<open>
  What \<^verbatim>\<open>axios.post\<close> does inside \<^verbatim>\<open>processBatch\<close>: it returns the response body, or
  it throws an error whose \<^verbatim>\<open>message\<close> is the transport reason. A body that is
  returned is taken to have the type the code casts it to.
\<close>

datatype exchange = Returned BatchSyncResponse | Thrown string

text \<open>
  The world outside the pass: the two tables (in insertion order), the number of clock
  reads made so far, and the requests posted so far. The clock is any function from the
  number of earlier reads to a time; the remote authority is any function from the number
  of earlier requests and the request to the outcome of the call.
\<close>

record world =
  tasks :: "Task list"
  sync_queue :: "SyncQueueItem list"
  ticks :: nat
  sent :: "BatchSyncRequest list"

type_synonym clock = "nat \<Rightarrow> int"

type_synonym remote = "nat \<Rightarrow> BatchSyncRequest \<Rightarrow> exchange"

text \<open>The local variables of \<^verbatim>\<open>sync\<close>, with the world they act on.\<close>

record pass =
  wd :: world
  synced :: nat
  failed :: nat
  errors :: "SyncError list"

section \<open>The store and the clock\<close>

text \<open>
  Modelled from the spec: the class \<^verbatim>\<open>Database\<close> of \<^verbatim>\<open>../db/database\<close> is not among
  the sources. The four SQL statements the sync pass issues are given their SQL meaning
  on the tables as lists of rows; a statement is taken to complete (the store is
  available).
\<close>

definition now :: "clock \<Rightarrow> world \<Rightarrow> int \<times> world" where
  "now clk w = (clk (ticks w), w\<lparr>ticks := Suc (ticks w)\<rparr>)"

definition update_tasks :: "string \<Rightarrow> (Task \<Rightarrow> Task) \<Rightarrow> world \<Rightarrow> world" where
  "update_tasks i f w = w\<lparr>tasks := map (\<lambda>r. if id_task r = i then f r else r) (tasks w)\<rparr>"

definition update_queue :: "string \<Rightarrow> (SyncQueueItem \<Rightarrow> SyncQueueItem) \<Rightarrow> world \<Rightarrow> world" where
  "update_queue i f w =
     w\<lparr>sync_queue := map (\<lambda>q. if id_item q = i then f q else q) (sync_queue w)\<rparr>"

definition delete_queue :: "string \<Rightarrow> world \<Rightarrow> world" where
  "delete_queue i w = w\<lparr>sync_queue := filter (\<lambda>q. task_id q \<noteq> i) (sync_queue w)\<rparr>"

text \<open>
  \<^verbatim>\<open>SELECT * FROM sync_queue ORDER BY created_at\<close> and the mapping of the rows
  (\<^verbatim>\<open>error_message: row.error_message || undefined\<close> turns the empty text into
  \<^verbatim>\<open>undefined\<close>). Rows with equal \<^verbatim>\<open>created_at\<close> keep their insertion order.
\<close>

definition row_to_item :: "SyncQueueItem \<Rightarrow> SyncQueueItem" where
  "row_to_item row =
     row\<lparr>error_message := (case error_message row of
                              None \<Rightarrow> None
                            | Some m \<Rightarrow> if m = [] then None else Some m)\<rparr>"

definition drain :: "world \<Rightarrow> SyncQueueItem list" where
  "drain w = map row_to_item (sort_key created_at (sync_queue w))"

section \<open>TaskService\<close>

text \<open>
  \<^verbatim>\<open>getTask\<close>: \<^verbatim>\<open>SELECT * FROM tasks WHERE id = ? AND is_deleted = 0\<close>, first row or
  \<^verbatim>\<open>null\<close>.
\<close>

definition getTask :: "string \<Rightarrow> world \<Rightarrow> Task option" where
  "getTask i w = find (\<lambda>r. id_task r = i \<and> \<not> is_deleted r) (tasks w)"

section \<open>SyncService\<close>

text \<open>
  \<^verbatim>\<open>a >= b\<close> on two time values: false as soon as one of them is NaN.
\<close>

definition getTime :: "date \<Rightarrow> int option" where
  "getTime d = d"

definition js_ge :: "int option \<Rightarrow> int option \<Rightarrow> bool" where
  "js_ge a b = (case a of None \<Rightarrow> False
                | Some x \<Rightarrow> (case b of None \<Rightarrow> False | Some y \<Rightarrow> y \<le> x))"

definition resolveConflict :: "Task \<Rightarrow> Task \<Rightarrow> Task" where
  "resolveConflict localTask serverTask =
     (let localUpdated = getTime (updated_at localTask);
          serverUpdated = getTime (updated_at serverTask)
      in if js_ge localUpdated serverUpdated then localTask else serverTask)"

text \<open>
  \<^verbatim>\<open>updateSyncStatus\<close>. The argument \<open>serverId\<close> is \<^verbatim>\<open>serverData?.server_id ?? null\<close>;
  the clock is read before the branch, for either status;
  \<^verbatim>\<open>COALESCE(?, server_id)\<close> keeps the stored value when the parameter is NULL.
\<close>

definition updateSyncStatus :: "clock \<Rightarrow> string \<Rightarrow> SyncStatus \<Rightarrow> string option \<Rightarrow> world \<Rightarrow> world" where
  "updateSyncStatus clk taskId st serverId w =
     (case now clk w of (nowIso, w1) \<Rightarrow>
        if st = Synced then
          delete_queue taskId
            (update_tasks taskId
               (\<lambda>r. r\<lparr>sync_status := Synced,
                       server_id := (case serverId of None \<Rightarrow> server_id r | Some s \<Rightarrow> Some s),
                       last_synced_at := Some nowIso\<rparr>) w1)
        else update_tasks taskId (\<lambda>r. r\<lparr>sync_status := Error\<rparr>) w1)"

definition handleSyncError :: "clock \<Rightarrow> SyncQueueItem \<Rightarrow> string \<Rightarrow> world \<Rightarrow> world" where
  "handleSyncError clk item msg w =
     (let newRetry = retry_count item + 1;
          w1 = update_queue (id_item item)
                 (\<lambda>q. q\<lparr>retry_count := newRetry, error_message := Some msg\<rparr>) w
      in if 3 \<le> newRetry then updateSyncStatus clk (task_id item) Error None w1 else w1)"

definition processBatch :: "clock \<Rightarrow> remote \<Rightarrow> SyncQueueItem list \<Rightarrow> world \<Rightarrow> exchange \<times> world" where
  "processBatch clk srv its w =
     (case now clk w of (t, w1) \<Rightarrow>
        (let payload = \<lparr>items = its, client_timestamp = t\<rparr>
         in (srv (length (sent w1)) payload, w1\<lparr>sent := sent w1 @ [payload]\<rparr>)))"

text \<open>\<^verbatim>\<open>s || d\<close> for an optional text \<open>s\<close>: the empty text is falsy too.\<close>

definition js_or :: "string option \<Rightarrow> string \<Rightarrow> string" where
  "js_or s d = (case s of None \<Rightarrow> d | Some m \<Rightarrow> if m = [] then d else m)"

text \<open>\<^verbatim>\<open>errors.push({task_id, operation, error, timestamp: new Date()})\<close>.\<close>

definition push_error :: "clock \<Rightarrow> SyncQueueItem \<Rightarrow> string \<Rightarrow> pass \<Rightarrow> pass" where
  "push_error clk item msg s =
     (case now clk (wd s) of (t, w1) \<Rightarrow>
        s\<lparr>wd := w1,
          errors := errors s @ [\<lparr>task_id_e = task_id item, operation_e = operation item,
                                 error_e = msg, timestamp_e = t\<rparr>]\<rparr>)"

text \<open>
  The body of \<^verbatim>\<open>for (const processed of response.processed_items)\<close>, lines 40 to 74.
  In the conflict branch the parameter \<^verbatim>\<open>new Date().toISOString()\<close> is evaluated
  first and \<^verbatim>\<open>CURRENT_TIMESTAMP\<close> when the statement runs.
\<close>

definition handle_processed :: "clock \<Rightarrow> SyncQueueItem list \<Rightarrow> pass \<Rightarrow> ProcessedItem \<Rightarrow> pass" where
  "handle_processed clk batch s processed =
     (case find (\<lambda>b. task_id b = client_id processed) batch of
        None \<Rightarrow> s
      | Some item \<Rightarrow>
          if status processed = Success then
            s\<lparr>wd := updateSyncStatus clk (task_id item) Synced (server_id_p processed) (wd s),
              synced := synced s + 1\<rparr>
          else if status processed = Conflict then
            (case getTask (task_id item) (wd s) of
               None \<Rightarrow>
                 push_error clk item ''Conflict''
                   (s\<lparr>wd := handleSyncError clk item ''Conflict without resolvable data'' (wd s),
                      failed := failed s + 1\<rparr>)
             | Some local \<Rightarrow>
                 (case resolved_data processed of
                    None \<Rightarrow>
                      push_error clk item ''Conflict''
                        (s\<lparr>wd := handleSyncError clk item ''Conflict without resolvable data'' (wd s),
                           failed := failed s + 1\<rparr>)
                  | Some serverTask \<Rightarrow>
                      (let winner = resolveConflict local serverTask
                       in case now clk (wd s) of (nowIso, w1) \<Rightarrow>
                          case now clk w1 of (cur, w2) \<Rightarrow>
                            s\<lparr>wd := delete_queue (id_task local)
                                      (update_tasks (id_task local)
                                         (\<lambda>r. r\<lparr>title := title winner,
                                                 description := description winner,
                                                 completed := completed winner,
                                                 updated_at := Some nowIso,
                                                 sync_status := Synced,
                                                 server_id := (case server_id serverTask of
                                                                 None \<Rightarrow> server_id_p processed
                                                               | Some v \<Rightarrow> Some v),
                                                 last_synced_at := Some cur\<rparr>) w2),
                              synced := synced s + 1\<rparr>)))
          else
            push_error clk item (js_or (error_p processed) ''error'')
              (s\<lparr>wd := handleSyncError clk item (js_or (error_p processed) ''Sync error'') (wd s),
                 failed := failed s + 1\<rparr>))"

text \<open>
  The body of the loop of the \<^verbatim>\<open>catch\<close> block, lines 78 to 82: \<^verbatim>\<open>err.message\<close> is
  stored, \<^verbatim>\<open>err?.message || 'error'\<close> is reported.
\<close>

definition fail_item :: "clock \<Rightarrow> string \<Rightarrow> pass \<Rightarrow> SyncQueueItem \<Rightarrow> pass" where
  "fail_item clk msg s item =
     push_error clk item (js_or (Some msg) ''error'')
       (s\<lparr>wd := handleSyncError clk item msg (wd s), failed := failed s + 1\<rparr>)"

text \<open>Lines 37 to 83, for one batch: the exchange, then its outcomes or its failure.\<close>

definition run_batch :: "clock \<Rightarrow> remote \<Rightarrow> SyncQueueItem list \<Rightarrow> pass \<Rightarrow> pass" where
  "run_batch clk srv batch s =
     (case processBatch clk srv batch (wd s) of
        (Returned response, w1) \<Rightarrow>
          foldl (handle_processed clk batch) (s\<lparr>wd := w1\<rparr>) (processed_items response)
      | (Thrown msg, w1) \<Rightarrow> foldl (fail_item clk msg) (s\<lparr>wd := w1\<rparr>) batch)"

text \<open>\<^verbatim>\<open>allItems.slice(i, j)\<close> for \<open>0 \<le> i\<close>.\<close>

definition slice :: "'a list \<Rightarrow> nat \<Rightarrow> nat \<Rightarrow> 'a list" where
  "slice xs i j = take (j - i) (drop i xs)"

text \<open>
  \<^verbatim>\<open>for (let i = 0; i < allItems.length; i += batchSize)\<close>. With a batch size of 0 and
  a non-empty queue the loop never ends: the result is then \<open>None\<close>.
\<close>

partial_function (option) batch_loop ::
  "nat \<Rightarrow> clock \<Rightarrow> remote \<Rightarrow> SyncQueueItem list \<Rightarrow> nat \<Rightarrow> pass \<Rightarrow> pass option" where
  "batch_loop batchSize clk srv allItems i s =
     (if i < length allItems
      then batch_loop batchSize clk srv allItems (i + batchSize)
             (run_batch clk srv (slice allItems i (i + batchSize)) s)
      else Some s)"

declare batch_loop.simps [code]

text \<open>
  \<^verbatim>\<open>Number(process.env.SYNC_BATCH_SIZE || 50)\<close>, for a variable that is unset or
  empty (\<open>None\<close>) or holds a natural number.
\<close>

definition batchSize_of :: "nat option \<Rightarrow> nat" where
  "batchSize_of env = (case env of None \<Rightarrow> 50 | Some n \<Rightarrow> n)"

definition sync :: "nat option \<Rightarrow> clock \<Rightarrow> remote \<Rightarrow> world \<Rightarrow> (SyncResult \<times> world) option" where
  "sync env clk srv w =
     (let batchSize = batchSize_of env;
          allItems = drain w
      in case batch_loop batchSize clk srv allItems 0
                \<lparr>wd = w, synced = 0, failed = 0, errors = []\<rparr> of
           None \<Rightarrow> None
         | Some s \<Rightarrow>
             Some (\<lparr>success = (failed s = 0), synced_items = synced s,
                    failed_items = failed s, errors_r = errors s\<rparr>, wd s))"

section \<open>Auxiliary notions and sample inputs\<close>


text \<open>
  Two notions used in the proofs about a whole pass: the errors and the failed count of
  \<open>s'\<close> extend those of \<open>s\<close>; and every row of the queue has the retry count of an
  entry of \<open>xs\<close> with its id, or that count plus one.
\<close>

definition grows :: "pass \<Rightarrow> pass \<Rightarrow> bool" where
  "grows s s' \<longleftrightarrow> (\<exists>more. errors s' = errors s @ more) \<and> failed s \<le> failed s'"

definition bounded_retries :: "SyncQueueItem list \<Rightarrow> world \<Rightarrow> bool" where
  "bounded_retries xs w \<longleftrightarrow>
     (\<forall>q \<in> set (sync_queue w). \<exists>e \<in> set xs.
        id_item e = id_item q
        \<and> (retry_count q = retry_count e \<or> retry_count q = retry_count e + 1))"

text \<open>
  Sample inputs. A record \<open>t1\<close> edited locally at time 100, a second record \<open>t2\<close>, a
  version of \<open>t1\<close> edited on the remote side at time 200 (carrying no \<open>server_id\<close>), and
  queue entries that have failed twice before.
\<close>

definition ex_task :: Task where
  "ex_task = \<lparr>id_task = ''t1'', title = ''Buy milk'', description = None, completed = False,
     created_at_task = Some 10, updated_at = Some 100, is_deleted = False,
     sync_status = Pending, server_id = None, last_synced_at = None\<rparr>"


definition ex_snapshot :: Task where
  "ex_snapshot = \<lparr>id_task = ''t1'', title = ''Buy oat milk'', description = Some ''2 litres'',
     completed = True, created_at_task = Some 10, updated_at = Some 200, is_deleted = False,
     sync_status = Synced, server_id = None, last_synced_at = None\<rparr>"

definition ex_entry :: "string \<Rightarrow> string \<Rightarrow> Operation \<Rightarrow> int \<Rightarrow> SyncQueueItem" where
  "ex_entry i t opn c = \<lparr>id_item = i, task_id = t, operation = opn, data = ''{}'',
     created_at = c, retry_count = 2, error_message = None\<rparr>"

definition ex_world :: world where
  "ex_world = \<lparr>tasks = [ex_task],
     sync_queue = [ex_entry ''q1'' ''t1'' Create 1, ex_entry ''q2'' ''t1'' Update 2],
     ticks = 0, sent = []\<rparr>"


definition ex_pass :: "world \<Rightarrow> pass" where
  "ex_pass w = \<lparr>wd = w, synced = 0, failed = 0, errors = []\<rparr>"

definition ex_clock :: clock where
  "ex_clock n = 1000 + int n"




definition ex_stray :: ProcessedItem where
  "ex_stray = \<lparr>client_id = ''t9'', server_id_p = Some ''srv_7'', status = Success,
     resolved_data = None, error_p = None\<rparr>"



definition ex_rejected :: "string \<Rightarrow> ProcessedItem" where
  "ex_rejected m = \<lparr>client_id = ''t1'', server_id_p = None, status = ErrorStatus,
     resolved_data = None, error_p = Some m\<rparr>"

text \<open>
  Sample remote authorities: one that is unreachable, one that answers the first request
  with the given outcomes and is unreachable afterwards, one that always answers with the
  given outcomes.
\<close>

definition ex_down :: remote where
  "ex_down k req = Thrown ''timeout''"


definition ex_always :: "ProcessedItem list \<Rightarrow> remote" where
  "ex_always ps k req = Returned \<lparr>processed_items = ps\<rparr>"

section \<open>Facts about the operations\<close>



lemma updateSyncStatus_sent: "sent (updateSyncStatus clk i st sid w) = sent w"
  by (simp add: updateSyncStatus_def now_def update_tasks_def delete_queue_def)



lemma handleSyncError_sent: "sent (handleSyncError clk item msg w) = sent w"
  by (simp add: handleSyncError_def Let_def update_queue_def updateSyncStatus_sent)

lemma push_error_fields:
  "synced (push_error clk item msg s) = synced s"
  "failed (push_error clk item msg s) = failed s"
  "errors (push_error clk item msg s) =
     errors s @ [\<lparr>task_id_e = task_id item, operation_e = operation item, error_e = msg,
                  timestamp_e = clk (ticks (wd s))\<rparr>]"
  "tasks (wd (push_error clk item msg s)) = tasks (wd s)"
  "sync_queue (wd (push_error clk item msg s)) = sync_queue (wd s)"
  "sent (wd (push_error clk item msg s)) = sent (wd s)"
  by (simp_all add: push_error_def now_def)


lemma drain_rows:
  "\<forall>e \<in> set (drain w). \<exists>q \<in> set (sync_queue w).
      id_item q = id_item e \<and> task_id q = task_id e \<and> retry_count q = retry_count e"
  by (auto simp: drain_def row_to_item_def)


lemma handle_processed_unresolvable:
  assumes "find (\<lambda>b. task_id b = client_id p) batch = Some item"
    and "status p = Conflict"
    and "getTask (task_id item) (wd s) = None \<or> resolved_data p = None"
  shows "handle_processed clk batch s p =
           push_error clk item ''Conflict''
             (s\<lparr>wd := handleSyncError clk item ''Conflict without resolvable data'' (wd s),
                failed := failed s + 1\<rparr>)"
proof (cases "getTask (task_id item) (wd s)")
  case None
  then show ?thesis using assms(1,2) by (simp add: handle_processed_def)
next
  case (Some l)
  with assms(3) have "resolved_data p = None" by simp
  then show ?thesis using assms(1,2) Some by (simp add: handle_processed_def)
qed



lemma fail_item_fields:
  "failed (fail_item clk msg s item) = failed s + 1"
  "synced (fail_item clk msg s item) = synced s"
  "errors (fail_item clk msg s item) =
     errors s @ [\<lparr>task_id_e = task_id item, operation_e = operation item,
                  error_e = js_or (Some msg) ''error'',
                  timestamp_e = clk (ticks (handleSyncError clk item msg (wd s)))\<rparr>]"
  "sync_queue (wd (fail_item clk msg s item)) = sync_queue (handleSyncError clk item msg (wd s))"
  "tasks (wd (fail_item clk msg s item)) = tasks (handleSyncError clk item msg (wd s))"
  "sent (wd (fail_item clk msg s item)) = sent (wd s)"
  by (simp_all add: fail_item_def push_error_fields handleSyncError_sent)

lemma foldl_fail_item_counts:
  "failed (foldl (fail_item clk msg) s xs) = failed s + length xs
   \<and> synced (foldl (fail_item clk msg) s xs) = synced s"
  by (induction xs arbitrary: s) (simp_all add: fail_item_fields)

lemma foldl_fail_item_errors:
  "\<exists>es. errors (foldl (fail_item clk msg) s xs) = errors s @ es
        \<and> map (\<lambda>e. (task_id_e e, operation_e e, error_e e)) es
            = map (\<lambda>i. (task_id i, operation i, js_or (Some msg) ''error'')) xs"
proof (induction xs arbitrary: s)
  case Nil
  show ?case by simp
next
  case (Cons x xs)
  from Cons.IH [of "fail_item clk msg s x"] obtain es where
    es: "errors (foldl (fail_item clk msg) (fail_item clk msg s x) xs)
           = errors (fail_item clk msg s x) @ es"
        "map (\<lambda>e. (task_id_e e, operation_e e, error_e e)) es
            = map (\<lambda>i. (task_id i, operation i, js_or (Some msg) ''error'')) xs"
    by blast
  let ?e = "\<lparr>task_id_e = task_id x, operation_e = operation x,
                  error_e = js_or (Some msg) ''error'',
                  timestamp_e = clk (ticks (handleSyncError clk x msg (wd s)))\<rparr>"
  have "errors (foldl (fail_item clk msg) s (x # xs)) = errors s @ (?e # es)"
    using es(1) by (simp add: fail_item_fields)
  moreover have "map (\<lambda>e. (task_id_e e, operation_e e, error_e e)) (?e # es)
            = map (\<lambda>i. (task_id i, operation i, js_or (Some msg) ''error'')) (x # xs)"
    using es(2) by simp
  ultimately show ?case by blast
qed





lemma handle_processed_sent: "sent (wd (handle_processed clk batch s p)) = sent (wd s)"
  by (simp add: handle_processed_def push_error_fields handleSyncError_sent updateSyncStatus_sent
      now_def update_tasks_def delete_queue_def Let_def split: option.splits)

lemma handle_processed_tally:
  "length (errors s) = failed s \<Longrightarrow>
   length (errors (handle_processed clk batch s p)) = failed (handle_processed clk batch s p)"
  by (simp add: handle_processed_def push_error_fields now_def Let_def split: option.splits)

lemma foldl_handle_processed_sent:
  "sent (wd (foldl (handle_processed clk batch) s ps)) = sent (wd s)"
  by (induction ps arbitrary: s) (simp_all add: handle_processed_sent)

lemma foldl_handle_processed_tally:
  "length (errors s) = failed s \<Longrightarrow>
   length (errors (foldl (handle_processed clk batch) s ps))
     = failed (foldl (handle_processed clk batch) s ps)"
  by (induction ps arbitrary: s) (simp_all add: handle_processed_tally)

lemma foldl_fail_item_sent: "sent (wd (foldl (fail_item clk msg) s xs)) = sent (wd s)"
  by (induction xs arbitrary: s) (simp_all add: fail_item_fields)

lemma foldl_fail_item_tally:
  "length (errors s) = failed s \<Longrightarrow>
   length (errors (foldl (fail_item clk msg) s xs)) = failed (foldl (fail_item clk msg) s xs)"
  by (induction xs arbitrary: s) (simp_all add: fail_item_fields)

lemma processBatch_fields:
  "tasks (snd (processBatch clk srv batch w)) = tasks w"
  "sync_queue (snd (processBatch clk srv batch w)) = sync_queue w"
  "sent (snd (processBatch clk srv batch w)) = sent w @ [\<lparr>items = batch, client_timestamp = clk (ticks w)\<rparr>]"
  by (simp_all add: processBatch_def now_def Let_def)

lemma run_batch_cases:
  "run_batch clk srv batch s =
     (case fst (processBatch clk srv batch (wd s)) of
        Returned response \<Rightarrow>
          foldl (handle_processed clk batch) (s\<lparr>wd := snd (processBatch clk srv batch (wd s))\<rparr>)
            (processed_items response)
      | Thrown msg \<Rightarrow>
          foldl (fail_item clk msg) (s\<lparr>wd := snd (processBatch clk srv batch (wd s))\<rparr>) batch)"
  by (simp add: run_batch_def split: prod.splits exchange.splits)

lemma run_batch_sent:
  "sent (wd (run_batch clk srv batch s))
     = sent (wd s) @ [\<lparr>items = batch, client_timestamp = clk (ticks (wd s))\<rparr>]"
  by (simp add: run_batch_cases foldl_handle_processed_sent foldl_fail_item_sent
      processBatch_fields split: exchange.splits)

lemma run_batch_tally:
  "length (errors s) = failed s \<Longrightarrow>
   length (errors (run_batch clk srv batch s)) = failed (run_batch clk srv batch s)"
  by (simp add: run_batch_cases foldl_handle_processed_tally foldl_fail_item_tally
      split: exchange.splits)

lemma chunk_count:
  fixes n i B :: nat
  assumes "0 < B" and "i < n"
  shows "(n - i + B - 1) div B = Suc ((n - (i + B) + B - 1) div B)"
proof (cases "i + B \<le> n")
  case True
  define x where "x = n - (i + B) + B - 1"
  have "n - i + B - 1 = x + B"
    unfolding x_def using True assms by arith
  then have "(n - i + B - 1) div B = (x + B) div B"
    by (rule arg_cong)
  also have "\<dots> = Suc (x div B)"
    using assms(1) by (simp add: div_add_self2)
  finally show ?thesis by (simp only: x_def)
next
  case False
  define k where "k = n - i + B - 1"
  have z: "n - (i + B) + B - 1 = B - 1" using False by arith
  have lo: "B * 1 \<le> k" unfolding k_def using assms by arith
  have hi: "k < B * Suc 1" unfolding k_def using False assms by arith
  have "k div B = 1" using lo hi by (rule div_nat_eqI)
  moreover have "(B - 1) div B = 0" using assms(1) by (intro div_less) arith
  ultimately show ?thesis by (simp only: z k_def)
qed

lemma batch_loop_runs:
  assumes "0 < B"
  shows "\<exists>s'. batch_loop B clk srv xs i s = Some s'
          \<and> (length (errors s) = failed s \<longrightarrow> length (errors s') = failed s')
          \<and> (\<exists>new. sent (wd s') = sent (wd s) @ new
                \<and> concat (map items new) = drop i xs
                \<and> length new = (length xs - i + B - 1) div B
                \<and> (\<forall>r \<in> set new. length (items r) \<le> B))"
proof (induction "length xs - i" arbitrary: i s rule: less_induct)
  case less
  show ?case
  proof (cases "i < length xs")
    case False
    then have "batch_loop B clk srv xs i s = Some s"
      by (subst batch_loop.simps) simp
    moreover have "(length xs - i + B - 1) div B = 0"
      using False assms by simp
    ultimately show ?thesis using False by simp
  next
    case True
    let ?batch = "slice xs i (i + B)"
    let ?s1 = "run_batch clk srv ?batch s"
    have unfold: "batch_loop B clk srv xs i s = batch_loop B clk srv xs (i + B) ?s1"
      using True by (subst batch_loop.simps) simp
    have "length xs - (i + B) < length xs - i" using True assms by simp
    from less [OF this, of ?s1] obtain s' new where
      s': "batch_loop B clk srv xs (i + B) ?s1 = Some s'"
      and tally: "length (errors ?s1) = failed ?s1 \<longrightarrow> length (errors s') = failed s'"
      and new: "sent (wd s') = sent (wd ?s1) @ new"
        "concat (map items new) = drop (i + B) xs"
        "length new = (length xs - (i + B) + B - 1) div B"
        "\<forall>r \<in> set new. length (items r) \<le> B"
      by blast
    let ?req = "\<lparr>items = ?batch, client_timestamp = clk (ticks (wd s))\<rparr>"
    have a: "sent (wd s') = sent (wd s) @ (?req # new)"
      using new(1) by (simp add: run_batch_sent)
    have "concat (map items (?req # new)) = take B (drop i xs) @ drop B (drop i xs)"
      using new(2) by (simp add: slice_def add.commute)
    then have b: "concat (map items (?req # new)) = drop i xs"
      by (simp only: append_take_drop_id)
    have c: "length (?req # new) = (length xs - i + B - 1) div B"
      using new(3) chunk_count [OF assms True] by simp
    have d: "\<forall>r \<in> set (?req # new). length (items r) \<le> B"
      using new(4) by (simp add: slice_def)
    have e: "length (errors s) = failed s \<longrightarrow> length (errors s') = failed s'"
      using tally run_batch_tally by blast
    have f: "batch_loop B clk srv xs i s = Some s'" using unfold s' by simp
    show ?thesis
    proof (intro exI conjI)
      show "batch_loop B clk srv xs i s = Some s'" by (rule f)
      show "length (errors s) = failed s \<longrightarrow> length (errors s') = failed s'" by (rule e)
      show "sent (wd s') = sent (wd s) @ (?req # new)" by (rule a)
      show "concat (map items (?req # new)) = drop i xs" by (rule b)
      show "length (?req # new) = (length xs - i + B - 1) div B" by (rule c)
      show "\<forall>r \<in> set (?req # new). length (items r) \<le> B" by (rule d)
    qed
  qed
qed


lemma length_drain: "length (drain w) = length (sync_queue w)"
  by (simp add: drain_def)

lemma find_Some_holds: "find P xs = Some x \<Longrightarrow> P x \<and> x \<in> set xs"
  by (induction xs) (auto split: if_splits)

lemma getTask_Some_id: "getTask i w = Some l \<Longrightarrow> id_task l = i"
  unfolding getTask_def by (drule find_Some_holds) simp






lemma handle_processed_success:
  assumes "find (\<lambda>b. task_id b = client_id p) batch = Some item" and "status p = Success"
  shows "handle_processed clk batch s p =
           s\<lparr>wd := updateSyncStatus clk (task_id item) Synced (server_id_p p) (wd s),
             synced := synced s + 1\<rparr>"
  using assms by (simp add: handle_processed_def)

lemma handle_processed_resolved:
  assumes "find (\<lambda>b. task_id b = client_id p) batch = Some item" and "status p = Conflict"
    and "getTask (task_id item) (wd s) = Some loc" and "resolved_data p = Some snap"
  shows "tasks (wd (handle_processed clk batch s p)) =
           map (\<lambda>r. if id_task r = task_id item
                     then r\<lparr>title := title (resolveConflict loc snap),
                             description := description (resolveConflict loc snap),
                             completed := completed (resolveConflict loc snap),
                             updated_at := Some (clk (ticks (wd s))),
                             sync_status := Synced,
                             server_id := (case server_id snap of None \<Rightarrow> server_id_p p
                                           | Some v \<Rightarrow> Some v),
                             last_synced_at := Some (clk (Suc (ticks (wd s))))\<rparr>
                     else r) (tasks (wd s))"
    and "sync_queue (wd (handle_processed clk batch s p))
           = filter (\<lambda>q. task_id q \<noteq> task_id item) (sync_queue (wd s))"
    and "synced (handle_processed clk batch s p) = synced s + 1"
    and "failed (handle_processed clk batch s p) = failed s"
    and "errors (handle_processed clk batch s p) = errors s"
  using assms getTask_Some_id [OF assms(3)]
  by (simp_all add: handle_processed_def Let_def now_def update_tasks_def delete_queue_def)

lemma handle_processed_failure:
  assumes "find (\<lambda>b. task_id b = client_id p) batch = Some item" and "status p = ErrorStatus"
  shows "handle_processed clk batch s p =
           push_error clk item (js_or (error_p p) ''error'')
             (s\<lparr>wd := handleSyncError clk item (js_or (error_p p) ''Sync error'') (wd s),
                failed := failed s + 1\<rparr>)"
  using assms by (simp add: handle_processed_def)











lemma sync_batch_loop:
  "sync env clk srv w =
     map_option
       (\<lambda>s. (\<lparr>success = (failed s = 0), synced_items = synced s,
                failed_items = failed s, errors_r = errors s\<rparr>, wd s))
       (batch_loop (batchSize_of env) clk srv (drain w) 0
          \<lparr>wd = w, synced = 0, failed = 0, errors = []\<rparr>)"
  by (simp add: sync_def split: option.splits)





lemma batch_loop_zero:
  assumes "i < length xs"
  shows "batch_loop 0 clk srv xs i s = None"
proof (rule ccontr)
  assume "batch_loop 0 clk srv xs i s \<noteq> None"
  then obtain y where y: "batch_loop 0 clk srv xs i s = Some y" by auto
  have "\<not> ((0::nat) = 0 \<and> i < length xs)"
  proof (rule batch_loop.raw_induct
          [where P = "\<lambda>B clk srv xs i s y. \<not> (B = 0 \<and> i < length xs)", OF _ y])
    fix f :: "nat \<Rightarrow> clock \<Rightarrow> remote \<Rightarrow> SyncQueueItem list \<Rightarrow> nat \<Rightarrow> pass \<Rightarrow> pass option"
    fix B c r zs j t z
    assume IH: "\<And>B c r zs j t z. f B c r zs j t = Some z \<Longrightarrow> \<not> (B = 0 \<and> j < length zs)"
      and step: "(if j < length zs
                  then f B c r zs (j + B) (run_batch c r (slice zs j (j + B)) t)
                  else Some t) = Some z"
    show "\<not> (B = 0 \<and> j < length zs)"
    proof
      assume a: "B = 0 \<and> j < length zs"
      with step have "f 0 c r zs j (run_batch c r (slice zs j j) t) = Some z" by simp
      from IH [OF this] a show False by simp
    qed
  qed
  with assms show False by simp
qed

lemma handle_processed_failed:
  assumes "find (\<lambda>b. task_id b = client_id p) batch = Some item"
    and "status p = ErrorStatus
         \<or> (status p = Conflict
            \<and> (getTask (task_id item) (wd s) = None \<or> resolved_data p = None))"
  shows "handle_processed clk batch s p =
           push_error clk item
             (if status p = ErrorStatus then js_or (error_p p) ''error'' else ''Conflict'')
             (s\<lparr>wd := handleSyncError clk item
                         (if status p = ErrorStatus then js_or (error_p p) ''Sync error''
                          else ''Conflict without resolvable data'') (wd s),
                failed := failed s + 1\<rparr>)"
proof (cases "status p = ErrorStatus")
  case True
  then show ?thesis using assms(1) by (simp add: handle_processed_failure)
next
  case False
  with assms(2) have c: "status p = Conflict" by blast
  from False assms(2) have u: "getTask (task_id item) (wd s) = None \<or> resolved_data p = None"
    by simp
  show ?thesis
    unfolding handle_processed_unresolvable [OF assms(1) c u] using c by simp
qed

lemma grows_refl: "grows s s"
  by (simp add: grows_def)

lemma grows_trans: "grows a b \<Longrightarrow> grows b c \<Longrightarrow> grows a c"
  by (auto simp: grows_def)

lemma grows_wd: "grows (s\<lparr>wd := w\<rparr>) s' = grows s s'"
  by (simp add: grows_def)

lemma handle_processed_grows: "grows s (handle_processed clk batch s p)"
proof (cases "find (\<lambda>b. task_id b = client_id p) batch")
  case None
  then show ?thesis by (simp add: handle_processed_def grows_refl)
next
  case (Some item)
  show ?thesis
  proof (cases "status p = ErrorStatus
         \<or> (status p = Conflict
            \<and> (getTask (task_id item) (wd s) = None \<or> resolved_data p = None))")
    case True
    show ?thesis
      unfolding handle_processed_failed [OF Some True]
      by (simp add: grows_def push_error_fields)
  next
    case False
    show ?thesis
    proof (cases "status p")
      case Success
      then show ?thesis using Some by (simp add: handle_processed_success grows_def)
    next
      case ErrorStatus
      with False show ?thesis by simp
    next
      case Conflict
      with False obtain loc snap where "getTask (task_id item) (wd s) = Some loc"
          "resolved_data p = Some snap"
        by auto
      then show ?thesis
        using Some Conflict by (simp add: handle_processed_resolved grows_def)
    qed
  qed
qed

lemma foldl_handle_processed_grows: "grows s (foldl (handle_processed clk batch) s ps)"
proof (induction ps arbitrary: s)
  case Nil
  show ?case by (simp add: grows_refl)
next
  case (Cons p ps)
  have "grows s (handle_processed clk batch s p)" by (rule handle_processed_grows)
  moreover have "grows (handle_processed clk batch s p)
                   (foldl (handle_processed clk batch) (handle_processed clk batch s p) ps)"
    by (rule Cons.IH)
  ultimately show ?case by (simp only: foldl_Cons) (rule grows_trans)
qed

lemma foldl_fail_item_grows: "grows s (foldl (fail_item clk msg) s xs)"
proof (induction xs arbitrary: s)
  case Nil
  show ?case by (simp add: grows_refl)
next
  case (Cons x xs)
  have "grows s (fail_item clk msg s x)" by (simp add: grows_def fail_item_fields)
  moreover have "grows (fail_item clk msg s x) (foldl (fail_item clk msg) (fail_item clk msg s x) xs)"
    by (rule Cons.IH)
  ultimately show ?case by (simp only: foldl_Cons) (rule grows_trans)
qed

lemma run_batch_grows: "grows s (run_batch clk srv batch s)"
proof (cases "fst (processBatch clk srv batch (wd s))")
  case (Returned response)
  have "grows (s\<lparr>wd := snd (processBatch clk srv batch (wd s))\<rparr>)
          (foldl (handle_processed clk batch) (s\<lparr>wd := snd (processBatch clk srv batch (wd s))\<rparr>)
             (processed_items response))"
    by (rule foldl_handle_processed_grows)
  then show ?thesis using Returned by (simp add: run_batch_cases grows_wd)
next
  case (Thrown msg)
  have "grows (s\<lparr>wd := snd (processBatch clk srv batch (wd s))\<rparr>)
          (foldl (fail_item clk msg) (s\<lparr>wd := snd (processBatch clk srv batch (wd s))\<rparr>) batch)"
    by (rule foldl_fail_item_grows)
  then show ?thesis using Thrown by (simp add: run_batch_cases grows_wd)
qed

lemma batch_loop_grows:
  assumes "0 < B"
  shows "\<exists>s'. batch_loop B clk srv xs i s = Some s' \<and> grows s s'"
proof (induction "length xs - i" arbitrary: i s rule: less_induct)
  case less
  show ?case
  proof (cases "i < length xs")
    case False
    then have "batch_loop B clk srv xs i s = Some s"
      by (subst batch_loop.simps) simp
    then show ?thesis by (simp add: grows_refl)
  next
    case True
    let ?s1 = "run_batch clk srv (slice xs i (i + B)) s"
    have unfold: "batch_loop B clk srv xs i s = batch_loop B clk srv xs (i + B) ?s1"
      using True by (subst batch_loop.simps) simp
    have "length xs - (i + B) < length xs - i" using True assms by simp
    from less [OF this, of ?s1] obtain s' where
      s': "batch_loop B clk srv xs (i + B) ?s1 = Some s'" and g: "grows ?s1 s'"
      by blast
    have "grows s ?s1" by (rule run_batch_grows)
    then have "grows s s'" using g by (rule grows_trans)
    with unfold s' show ?thesis by simp
  qed
qed

lemma bounded_retries_same:
  "sync_queue w' = sync_queue w \<Longrightarrow> bounded_retries xs w' = bounded_retries xs w"
  by (simp add: bounded_retries_def)












section \<open>The claims\<close>

subsection \<open>Conflict resolution\<close>

text \<open>
  C1. For a local record \<open>L\<close> and a remote record \<open>R\<close>, \<^verbatim>\<open>resolveConflict\<close> returns
  \<open>L\<close> when the time value of \<open>L\<close> is at least that of \<open>R\<close>, a tie included, and \<open>R\<close>
  otherwise; when one of the two dates is invalid the comparison is false and \<open>R\<close> is
  returned. The winner is a function of the two records alone: the model takes no state
  and returns none, so resolving the same pair again gives the same winner.
\<close>

theorem resolveConflict_last_write_wins:
  "resolveConflict L R =
     (if (\<exists>a b. updated_at L = Some a \<and> updated_at R = Some b \<and> b \<le> a) then L else R)"
  by (auto simp: resolveConflict_def getTime_def js_ge_def split: option.splits)

theorem resolveConflict_last_write_wins_witness:
  "resolveConflict ex_task ex_snapshot = ex_snapshot
   \<and> resolveConflict ex_task (ex_snapshot\<lparr>updated_at := Some 100\<rparr>) = ex_task
   \<and> resolveConflict ex_task (ex_snapshot\<lparr>updated_at := None\<rparr>)
       = ex_snapshot\<lparr>updated_at := None\<rparr>"
  using resolveConflict_last_write_wins [of ex_task ex_snapshot]
    resolveConflict_last_write_wins [of ex_task "ex_snapshot\<lparr>updated_at := Some 100\<rparr>"]
    resolveConflict_last_write_wins [of ex_task "ex_snapshot\<lparr>updated_at := None\<rparr>"]
  by (simp add: ex_task_def ex_snapshot_def)

subsection \<open>A success outcome\<close>




subsection \<open>Retry and escalation\<close>




subsection \<open>A failed exchange\<close>



subsection \<open>A conflict won by the remote side\<close>




subsection \<open>Batches\<close>



subsection \<open>The result of a pass\<close>

text \<open>
  C7, as amended. On an empty queue a pass returns success with no synced item, no failed
  item and no error, whatever the batch size. With a positive batch size (50 when none is
  configured) a pass returns a result for every queue and all answers of the remote
  authority, a thrown exchange included; the success flag is true exactly when the failed
  count is 0, and there are as many errors as failed items. Every per-item failure is in
  that result. An outcome handled as a failure (status \<^verbatim>\<open>error\<close>, or a conflict that
  cannot be resolved), in the response to the batch at offset \<open>i\<close>, appends to the errors
  an entry with the record and the operation of the matched entry and the message
  (\<^verbatim>\<open>processed.error || 'error'\<close>, or \<^verbatim>\<open>Conflict\<close>); the entry is in the errors when
  the pass ends, and the failed count ends above its value at the start of the batch.
  When the exchange of the batch throws, one error per entry of the batch, in order, is in
  the errors when the pass ends, and the failed count ends higher by the size of the batch
  at least. The loop \<open>batch_loop\<close> is started at the offset \<open>i\<close>, in the state \<open>s\<close> the
  pass has reached there; the state in which the loop ends is the one \<open>sync\<close> takes its
  errors, its counts and its world from (last conjunct).
\<close>

theorem sync_reports_failures:
  "(sync_queue w = [] \<longrightarrow>
      sync env clk srv w =
        Some (\<lparr>success = True, synced_items = 0, failed_items = 0, errors_r = []\<rparr>, w))
   \<and> (0 < batchSize_of env \<longrightarrow>
        (\<exists>res w'. sync env clk srv w = Some (res, w')
           \<and> success res = (failed_items res = 0)
           \<and> length (errors_r res) = failed_items res))
   \<and> (0 < B \<and> i < length allItems \<and> batch = slice allItems i (i + B)
       \<and> processBatch clk srv batch (wd s)
           = (Returned \<lparr>processed_items = ps1 @ p # ps2\<rparr>, w1)
       \<and> find (\<lambda>b. task_id b = client_id p) batch = Some item
       \<and> (status p = ErrorStatus
          \<or> (status p = Conflict
             \<and> (getTask (task_id item)
                    (wd (foldl (handle_processed clk batch) (s\<lparr>wd := w1\<rparr>) ps1)) = None
                \<or> resolved_data p = None)))
       \<longrightarrow> (\<exists>s' t0 after.
              batch_loop B clk srv allItems i s = Some s'
              \<and> errors s'
                  = errors (foldl (handle_processed clk batch) (s\<lparr>wd := w1\<rparr>) ps1)
                    @ \<lparr>task_id_e = task_id item, operation_e = operation item,
                        error_e = (if status p = ErrorStatus
                                   then js_or (error_p p) ''error'' else ''Conflict''),
                        timestamp_e = t0\<rparr> # after
              \<and> failed s < failed s'))
   \<and> (0 < B \<and> i < length allItems \<and> batch = slice allItems i (i + B)
       \<and> fst (processBatch clk srv batch (wd s)) = Thrown msg
       \<longrightarrow> (\<exists>s' es after.
              batch_loop B clk srv allItems i s = Some s'
              \<and> errors s' = errors s @ es @ after
              \<and> map (\<lambda>e. (task_id_e e, operation_e e, error_e e)) es
                  = map (\<lambda>e. (task_id e, operation e, if msg = [] then ''error'' else msg)) batch
              \<and> failed s + length batch \<le> failed s'))
   \<and> (sync env clk srv w = Some (res, w') \<longrightarrow>
        (\<exists>s'. batch_loop (batchSize_of env) clk srv (drain w) 0
                 \<lparr>wd = w, synced = 0, failed = 0, errors = []\<rparr> = Some s'
           \<and> errors_r res = errors s' \<and> failed_items res = failed s'
           \<and> synced_items res = synced s' \<and> w' = wd s'))"
proof (intro conjI impI)
  let ?s0 = "\<lparr>wd = w, synced = 0, failed = 0, errors = []\<rparr>"
  {
    assume "sync_queue w = []"
    then have "drain w = []" by (simp add: drain_def)
    then have "batch_loop (batchSize_of env) clk srv (drain w) 0 ?s0 = Some ?s0"
      by (subst batch_loop.simps) simp
    then show "sync env clk srv w =
        Some (\<lparr>success = True, synced_items = 0, failed_items = 0, errors_r = []\<rparr>, w)"
      by (simp add: sync_def)
  }
  {
    assume pos: "0 < batchSize_of env"
    from batch_loop_runs [OF pos, of clk srv "drain w" 0 ?s0] obtain s' where
      s': "batch_loop (batchSize_of env) clk srv (drain w) 0 ?s0 = Some s'"
      and tally: "length (errors s') = failed s'"
      by auto
    have "sync env clk srv w =
          Some (\<lparr>success = (failed s' = 0), synced_items = synced s',
                 failed_items = failed s', errors_r = errors s'\<rparr>, wd s')"
      using s' by (simp add: sync_def)
    with tally show "\<exists>res w'. sync env clk srv w = Some (res, w')
           \<and> success res = (failed_items res = 0)
           \<and> length (errors_r res) = failed_items res"
      by simp
  }
  {
    let ?h = "handle_processed clk batch"
    let ?t = "foldl ?h (s\<lparr>wd := w1\<rparr>) ps1"
    let ?r = "if status p = ErrorStatus then js_or (error_p p) ''error'' else ''Conflict''"
    assume hyp: "0 < B \<and> i < length allItems \<and> batch = slice allItems i (i + B)
       \<and> processBatch clk srv batch (wd s)
           = (Returned \<lparr>processed_items = ps1 @ p # ps2\<rparr>, w1)
       \<and> find (\<lambda>b. task_id b = client_id p) batch = Some item
       \<and> (status p = ErrorStatus
          \<or> (status p = Conflict
             \<and> (getTask (task_id item) (wd ?t) = None \<or> resolved_data p = None)))"
    have pos: "0 < B" using hyp by (elim conjE)
    have lt: "i < length allItems" using hyp by (elim conjE)
    have b: "batch = slice allItems i (i + B)" using hyp by (elim conjE)
    have pb: "processBatch clk srv batch (wd s)
           = (Returned \<lparr>processed_items = ps1 @ p # ps2\<rparr>, w1)"
      using hyp by (elim conjE)
    have f: "find (\<lambda>b. task_id b = client_id p) batch = Some item"
      using hyp by (elim conjE)
    have k: "status p = ErrorStatus
          \<or> (status p = Conflict
             \<and> (getTask (task_id item) (wd ?t) = None \<or> resolved_data p = None))"
      using hyp by (elim conjE)
    note eq = handle_processed_failed [OF f k, of clk]
    have e1: "errors (?h ?t p)
                = errors ?t @ [\<lparr>task_id_e = task_id item, operation_e = operation item,
                                 error_e = ?r,
                                 timestamp_e = clk (ticks (handleSyncError clk item
                                   (if status p = ErrorStatus then js_or (error_p p) ''Sync error''
                                    else ''Conflict without resolvable data'') (wd ?t)))\<rparr>]"
      unfolding eq by (simp add: push_error_fields)
    have f1: "failed (?h ?t p) = failed ?t + 1"
      unfolding eq by (simp add: push_error_fields)
    have run: "run_batch clk srv batch s = foldl ?h (?h ?t p) ps2"
      using pb by (simp add: run_batch_def)
    have unfold: "batch_loop B clk srv allItems i s
                    = batch_loop B clk srv allItems (i + B) (foldl ?h (?h ?t p) ps2)"
      using lt b run by (subst batch_loop.simps) simp
    from batch_loop_grows [OF pos, of clk srv allItems "i + B" "foldl ?h (?h ?t p) ps2"]
    obtain s' where s': "batch_loop B clk srv allItems (i + B) (foldl ?h (?h ?t p) ps2) = Some s'"
      and g: "grows (foldl ?h (?h ?t p) ps2) s'"
      by blast
    have "grows (?h ?t p) (foldl ?h (?h ?t p) ps2)" by (rule foldl_handle_processed_grows)
    then have g1: "grows (?h ?t p) s'" using g by (rule grows_trans)
    have "grows (s\<lparr>wd := w1\<rparr>) ?t" by (rule foldl_handle_processed_grows)
    then have g0: "failed s \<le> failed ?t" by (simp add: grows_def)
    from g1 obtain more where more: "errors s' = errors (?h ?t p) @ more"
      and fl: "failed (?h ?t p) \<le> failed s'"
      by (auto simp: grows_def)
    have a: "batch_loop B clk srv allItems i s = Some s'" using unfold s' by simp
    have c: "failed s < failed s'" using fl f1 g0 by simp
    from more e1 have "errors s' = errors ?t @ \<lparr>task_id_e = task_id item, operation_e = operation item,
                                 error_e = ?r,
                                 timestamp_e = clk (ticks (handleSyncError clk item
                                   (if status p = ErrorStatus then js_or (error_p p) ''Sync error''
                                    else ''Conflict without resolvable data'') (wd ?t)))\<rparr> # more"
      by simp
    with a c show "\<exists>s' t0 after.
              batch_loop B clk srv allItems i s = Some s'
              \<and> errors s'
                  = errors ?t
                    @ \<lparr>task_id_e = task_id item, operation_e = operation item,
                        error_e = ?r, timestamp_e = t0\<rparr> # after
              \<and> failed s < failed s'"
      by blast
  }
  {
    assume hyp: "0 < B \<and> i < length allItems \<and> batch = slice allItems i (i + B)
       \<and> fst (processBatch clk srv batch (wd s)) = Thrown msg"
    have pos: "0 < B" using hyp by (elim conjE)
    have lt: "i < length allItems" using hyp by (elim conjE)
    have b: "batch = slice allItems i (i + B)" using hyp by (elim conjE)
    have th: "fst (processBatch clk srv batch (wd s)) = Thrown msg" using hyp by (elim conjE)
    let ?s0 = "s\<lparr>wd := snd (processBatch clk srv batch (wd s))\<rparr>"
    let ?s1 = "foldl (fail_item clk msg) ?s0 batch"
    have run: "run_batch clk srv batch s = ?s1"
      using th by (simp add: run_batch_cases)
    have unfold: "batch_loop B clk srv allItems i s = batch_loop B clk srv allItems (i + B) ?s1"
      using lt b run by (subst batch_loop.simps) simp
    from foldl_fail_item_errors [of clk msg ?s0 batch] obtain es where
      es: "errors ?s1 = errors s @ es"
        "map (\<lambda>e. (task_id_e e, operation_e e, error_e e)) es
           = map (\<lambda>e. (task_id e, operation e, if msg = [] then ''error'' else msg)) batch"
      by (auto simp: js_or_def)
    have cnt: "failed ?s1 = failed s + length batch"
      using foldl_fail_item_counts [of clk msg ?s0 batch] by simp
    from batch_loop_grows [OF pos, of clk srv allItems "i + B" ?s1]
    obtain s' where s': "batch_loop B clk srv allItems (i + B) ?s1 = Some s'"
      and g: "grows ?s1 s'"
      by blast
    from g obtain more where more: "errors s' = errors ?s1 @ more"
      and fl: "failed ?s1 \<le> failed s'"
      by (auto simp: grows_def)
    have a: "batch_loop B clk srv allItems i s = Some s'" using unfold s' by simp
    have e: "errors s' = errors s @ es @ more" using more es(1) by simp
    have c: "failed s + length batch \<le> failed s'" using fl cnt by simp
    from a e es(2) c show "\<exists>s' es after.
              batch_loop B clk srv allItems i s = Some s'
              \<and> errors s' = errors s @ es @ after
              \<and> map (\<lambda>e. (task_id_e e, operation_e e, error_e e)) es
                  = map (\<lambda>e. (task_id e, operation e, if msg = [] then ''error'' else msg)) batch
              \<and> failed s + length batch \<le> failed s'"
      by blast
  }
  {
    assume "sync env clk srv w = Some (res, w')"
    then show "\<exists>s'. batch_loop (batchSize_of env) clk srv (drain w) 0
                 \<lparr>wd = w, synced = 0, failed = 0, errors = []\<rparr> = Some s'
           \<and> errors_r res = errors s' \<and> failed_items res = failed s'
           \<and> synced_items res = synced s' \<and> w' = wd s'"
      by (auto simp: sync_batch_loop)
  }
qed

theorem sync_reports_failures_witness:
  "sync_queue (ex_world\<lparr>sync_queue := []\<rparr>) = []
   \<and> sync (Some 0) ex_clock ex_down (ex_world\<lparr>sync_queue := []\<rparr>)
       = Some (\<lparr>success = True, synced_items = 0, failed_items = 0, errors_r = []\<rparr>,
               ex_world\<lparr>sync_queue := []\<rparr>)
   \<and> 0 < batchSize_of None
   \<and> fst (processBatch ex_clock (ex_always [ex_rejected ''rejected'']) (drain ex_world) ex_world)
       = Returned \<lparr>processed_items = [ex_rejected ''rejected'']\<rparr>
   \<and> find (\<lambda>b. task_id b = client_id (ex_rejected ''rejected'')) (drain ex_world)
       = Some (ex_entry ''q1'' ''t1'' Create 1)
   \<and> status (ex_rejected ''rejected'') = ErrorStatus
   \<and> map_option (\<lambda>(res, w'). (success res, synced_items res, failed_items res,
                                map (\<lambda>e. (task_id_e e, operation_e e, error_e e)) (errors_r res)))
        (sync None ex_clock (ex_always [ex_rejected ''rejected'']) ex_world)
       = Some (False, 0, 1, [(''t1'', Create, ''rejected'')])
   \<and> fst (processBatch ex_clock ex_down (drain ex_world) ex_world) = Thrown ''timeout''
   \<and> map_option (\<lambda>(res, w'). (success res, synced_items res, failed_items res,
                                map (\<lambda>e. (task_id_e e, operation_e e, error_e e)) (errors_r res)))
        (sync None ex_clock ex_down ex_world)
       = Some (False, 0, 2, [(''t1'', Create, ''timeout''), (''t1'', Update, ''timeout'')])"
proof -
  let ?e = "ex_entry ''q1'' ''t1'' Create 1"
  let ?p = "ex_rejected ''rejected''"
  let ?srv = "ex_always [?p]"
  let ?w1 = "snd (processBatch ex_clock ?srv (drain ex_world) ex_world)"
  have h: "sync_queue (ex_world\<lparr>sync_queue := []\<rparr>) = []" by simp
  have h': "0 < batchSize_of None" by (simp add: batchSize_of_def)
  have d: "drain ex_world = [?e, ex_entry ''q2'' ''t1'' Update 2]"
    by (simp add: drain_def ex_world_def ex_entry_def row_to_item_def)
  have pb: "fst (processBatch ex_clock ?srv (drain ex_world) ex_world)
              = Returned \<lparr>processed_items = [?p]\<rparr>"
    by (simp add: processBatch_def now_def ex_always_def Let_def)
  have pt: "fst (processBatch ex_clock ex_down (drain ex_world) ex_world) = Thrown ''timeout''"
    by (simp add: processBatch_def now_def ex_down_def Let_def)
  have f: "find (\<lambda>b. task_id b = client_id ?p) (drain ex_world) = Some ?e"
    by (simp add: d ex_entry_def ex_rejected_def)
  have st: "status ?p = ErrorStatus" by (simp add: ex_rejected_def)
  have sl: "drain ex_world = slice (drain ex_world) 0 (0 + 50)"
    by (simp add: d slice_def)
  have pb': "processBatch ex_clock ?srv (drain ex_world) (wd (ex_pass ex_world))
               = (Returned \<lparr>processed_items = [] @ ?p # []\<rparr>, ?w1)"
    using pb by (simp add: ex_pass_def prod_eq_iff)
  have hyp: "0 < (50::nat) \<and> 0 < length (drain ex_world)
       \<and> drain ex_world = slice (drain ex_world) 0 (0 + 50)
       \<and> processBatch ex_clock ?srv (drain ex_world) (wd (ex_pass ex_world))
           = (Returned \<lparr>processed_items = [] @ ?p # []\<rparr>, ?w1)
       \<and> find (\<lambda>b. task_id b = client_id ?p) (drain ex_world) = Some ?e
       \<and> (status ?p = ErrorStatus
          \<or> (status ?p = Conflict
             \<and> (getTask (task_id ?e)
                    (wd (foldl (handle_processed ex_clock (drain ex_world))
                           ((ex_pass ex_world)\<lparr>wd := ?w1\<rparr>) [])) = None
                \<or> resolved_data ?p = None)))"
    using sl pb' f st by (simp add: d)
  have rep: "\<exists>s' t0 after.
              batch_loop 50 ex_clock ?srv (drain ex_world) 0 (ex_pass ex_world) = Some s'
              \<and> errors s'
                  = errors (foldl (handle_processed ex_clock (drain ex_world))
                              ((ex_pass ex_world)\<lparr>wd := ?w1\<rparr>) [])
                    @ \<lparr>task_id_e = task_id ?e, operation_e = operation ?e,
                        error_e = (if status ?p = ErrorStatus
                                   then js_or (error_p ?p) ''error'' else ''Conflict''),
                        timestamp_e = t0\<rparr> # after
              \<and> failed (ex_pass ex_world) < failed s'"
    using hyp by (rule sync_reports_failures [THEN conjunct2, THEN conjunct2, THEN conjunct1,
          THEN mp])
  have ev: "map_option (\<lambda>(res, w'). (success res, synced_items res, failed_items res,
                                map (\<lambda>e. (task_id_e e, operation_e e, error_e e)) (errors_r res)))
        (sync None ex_clock ?srv ex_world)
       = Some (False, 0, 1, [(''t1'', Create, ''rejected'')])"
    by code_simp
  have ev2: "map_option (\<lambda>(res, w'). (success res, synced_items res, failed_items res,
                                map (\<lambda>e. (task_id_e e, operation_e e, error_e e)) (errors_r res)))
        (sync None ex_clock ex_down ex_world)
       = Some (False, 0, 2, [(''t1'', Create, ''timeout''), (''t1'', Update, ''timeout'')])"
    by code_simp
  have e: "sync (Some 0) ex_clock ex_down (ex_world\<lparr>sync_queue := []\<rparr>)
       = Some (\<lparr>success = True, synced_items = 0, failed_items = 0, errors_r = []\<rparr>,
               ex_world\<lparr>sync_queue := []\<rparr>)"
    using h by (rule sync_reports_failures [where w = "ex_world\<lparr>sync_queue := []\<rparr>"
          and env = "Some 0" and clk = ex_clock and srv = ex_down, THEN conjunct1, THEN mp])
  from rep h e h' pb f st ev pt ev2 show ?thesis by blast
qed

text \<open>
  With a configured batch size of 0 and rows in the queue, the index of the loop never
  advances: the pass does not return.
\<close>

theorem zero_batch_size_counterexample:
  "batchSize_of (Some 0) = 0 \<and> length (sync_queue ex_world) = 2
   \<and> sync (Some 0) ex_clock ex_down ex_world = None"
proof -
  have "0 < length (drain ex_world)" by (simp add: length_drain ex_world_def)
  then have "batch_loop 0 ex_clock ex_down (drain ex_world) 0
               \<lparr>wd = ex_world, synced = 0, failed = 0, errors = []\<rparr> = None"
    by (rule batch_loop_zero)
  then show ?thesis by (simp add: sync_def batchSize_of_def ex_world_def)
qed

subsection \<open>A conflict that cannot be resolved\<close>




subsection \<open>A conflict on a deleted record\<close>



subsection \<open>An outcome for no entry of the batch\<close>

text \<open>
  C10. A processed item whose \<open>client_id\<close> is the \<open>task_id\<close> of no entry of the
  dispatched batch leaves the whole state as it is: the two tables, the clock, the
  requests posted, the two counts and the errors.
\<close>

theorem unmatched_processed_item_skipped:
  "\<forall>b \<in> set batch. task_id b \<noteq> client_id p \<Longrightarrow> handle_processed clk batch s p = s"
proof -
  assume "\<forall>b \<in> set batch. task_id b \<noteq> client_id p"
  then have "find (\<lambda>b. task_id b = client_id p) batch = None"
    by (simp add: find_None_iff)
  then show ?thesis by (simp add: handle_processed_def)
qed

theorem unmatched_processed_item_skipped_witness:
  "map task_id (drain ex_world) = [''t1'', ''t1''] \<and> client_id ex_stray = ''t9''
   \<and> handle_processed ex_clock (drain ex_world) (ex_pass ex_world) ex_stray = ex_pass ex_world"
proof -
  have d: "map task_id (drain ex_world) = [''t1'', ''t1'']"
    by (simp add: drain_def ex_world_def ex_entry_def row_to_item_def)
  have c: "client_id ex_stray = ''t9''" by (simp add: ex_stray_def)
  have h: "\<forall>b \<in> set (drain ex_world). task_id b \<noteq> client_id ex_stray"
    by (simp add: drain_def ex_world_def ex_entry_def row_to_item_def ex_stray_def)
  have "handle_processed ex_clock (drain ex_world) (ex_pass ex_world) ex_stray = ex_pass ex_world"
    using h by (rule unmatched_processed_item_skipped)
  with d c show ?thesis by blast
qed

end
